theory Spec2Isabelle
  imports Main
begin

section \<open>Python values and exceptions\<close>

text \<open>
  The cookie analyser (\<^verbatim>\<open>app.py\<close>) handles three kinds of data: the rows of the
  uploaded table (a cookie name and a domain category, both strings), the JSON values
  that the language API sends back, and the rows of the result table. JSON values are
  modelled as Python sees them after \<^verbatim>\<open>json.loads\<close>: \<^verbatim>\<open>None\<close>, booleans, integers,
  floats, strings, lists and dictionaries (an association list looked up with
  \<open>map_of\<close>). Strings are byte lists.
\<close>

datatype pyfloat = Finite int int | PosInf | NegInf | NaN
  \<comment> \<open>\<open>Finite m e\<close> stands for \<open>m * 2 ^ e\<close>; only its being zero or not matters here\<close>

datatype json =
    JNull
  | JBool bool
  | JInt int
  | JFloat pyfloat
  | JStr string
  | JArr "json list"
  | JObj "(string \<times> json) list"

text \<open>
  Exceptions of class \<^verbatim>\<open>Exception\<close>, each carrying the text that \<^verbatim>\<open>str(e)\<close> gives
  (for a \<^verbatim>\<open>KeyError\<close> that is the \<^verbatim>\<open>repr\<close> of the key). The wording of the
  interpreter's own messages follows CPython 3.12.
\<close>

datatype exn =
    KeyError string
  | IndexError string
  | TypeError string
  | AttributeError string
  | JSONDecodeError string
  | ZeroDivisionError string
  | OtherError string

fun str_exn :: "exn \<Rightarrow> string" where
  "str_exn (KeyError m) = m"
| "str_exn (IndexError m) = m"
| "str_exn (TypeError m) = m"
| "str_exn (AttributeError m) = m"
| "str_exn (JSONDecodeError m) = m"
| "str_exn (ZeroDivisionError m) = m"
| "str_exn (OtherError m) = m"

definition quoted :: "string \<Rightarrow> string" where
  "quoted s = [CHR 0x27] @ s @ [CHR 0x27]"

fun type_name :: "json \<Rightarrow> string" where
  "type_name JNull = ''NoneType''"
| "type_name (JBool _) = ''bool''"
| "type_name (JInt _) = ''int''"
| "type_name (JFloat _) = ''float''"
| "type_name (JStr _) = ''str''"
| "type_name (JArr _) = ''list''"
| "type_name (JObj _) = ''dict''"

text \<open>Truth value of a Python object, as \<^verbatim>\<open>if x:\<close> and \<^verbatim>\<open>and\<close> test it.\<close>

fun truthy :: "json \<Rightarrow> bool" where
  "truthy JNull = False"
| "truthy (JBool b) = b"
| "truthy (JInt i) = (i \<noteq> 0)"
| "truthy (JFloat (Finite m e)) = (m \<noteq> 0)"
| "truthy (JFloat _) = True"
| "truthy (JStr s) = (s \<noteq> [])"
| "truthy (JArr xs) = (xs \<noteq> [])"
| "truthy (JObj kvs) = (kvs \<noteq> [])"

definition is_substring :: "string \<Rightarrow> string \<Rightarrow> bool" where
  "is_substring needle s =
     list_ex (\<lambda>i. take (length needle) (drop i s) = needle) [0..<Suc (length s)]"

text \<open>\<^verbatim>\<open>key in x\<close> for a string \<open>key\<close>.\<close>

fun py_contains :: "string \<Rightarrow> json \<Rightarrow> exn + bool" where
  "py_contains key (JObj kvs) = Inr (key \<in> set (map fst kvs))"
| "py_contains key (JArr xs) = Inr (JStr key \<in> set xs)"
| "py_contains key (JStr s) = Inr (is_substring key s)"
| "py_contains key v =
     Inl (TypeError (''argument of type '' @ quoted (type_name v) @ '' is not iterable''))"

text \<open>\<^verbatim>\<open>x[key]\<close> for a string \<open>key\<close>.\<close>

fun getitem_str :: "string \<Rightarrow> json \<Rightarrow> exn + json" where
  "getitem_str key (JObj kvs) =
     (case map_of kvs key of Some v \<Rightarrow> Inr v | None \<Rightarrow> Inl (KeyError (quoted key)))"
| "getitem_str key (JArr xs) =
     Inl (TypeError ''list indices must be integers or slices, not str'')"
| "getitem_str key (JStr s) =
     Inl (TypeError (''string indices must be integers, not '' @ quoted ''str''))"
| "getitem_str key v =
     Inl (TypeError (quoted (type_name v) @ '' object is not subscriptable''))"

text \<open>\<^verbatim>\<open>x[0]\<close>. The keys of a parsed JSON object are strings, so 0 is never among them.\<close>

fun getitem_0 :: "json \<Rightarrow> exn + json" where
  "getitem_0 (JArr []) = Inl (IndexError ''list index out of range'')"
| "getitem_0 (JArr (x # xs)) = Inr x"
| "getitem_0 (JStr []) = Inl (IndexError ''string index out of range'')"
| "getitem_0 (JStr (c # cs)) = Inr (JStr [c])"
| "getitem_0 (JObj kvs) = Inl (KeyError ''0'')"
| "getitem_0 v = Inl (TypeError (quoted (type_name v) @ '' object is not subscriptable''))"

text \<open>\<^verbatim>\<open>x.get(key, default)\<close>: only a dictionary has the method.\<close>

fun dict_get :: "string \<Rightarrow> json \<Rightarrow> json \<Rightarrow> exn + json" where
  "dict_get key fallback (JObj kvs) =
     Inr (case map_of kvs key of Some v \<Rightarrow> v | None \<Rightarrow> fallback)"
| "dict_get key fallback v =
     Inl (AttributeError (quoted (type_name v) @ '' object has no attribute '' @ quoted ''get''))"

text \<open>Sequencing of computations that may raise.\<close>

definition and_then :: "exn + 'a \<Rightarrow> ('a \<Rightarrow> exn + 'b) \<Rightarrow> exn + 'b" where
  "and_then r f = (case r of Inl e \<Rightarrow> Inl e | Inr v \<Rightarrow> f v)"

text \<open>Decimal text of an integer, as an f-string prints it.\<close>

fun str_nat :: "nat \<Rightarrow> string" where
  "str_nat n =
     (if n < 10 then [''0123456789'' ! n]
      else str_nat (n div 10) @ [''0123456789'' ! (n mod 10)])"

declare str_nat.simps [simp del]

definition str_int :: "int \<Rightarrow> string" where
  "str_int i = (if i < 0 then ''-'' @ str_nat (nat (- i)) else str_nat (nat i))"


section \<open>The outside world\<close>

text \<open>
  What the program does not compute itself is a parameter of the model:
  \<^item> \<open>requests_post n name\<close> is the outcome of the \<open>n\<close>-th HTTP request of the run
    (counted from 0), sent for cookie \<open>name\<close>: \<^verbatim>\<open>requests.post\<close>, \<^verbatim>\<open>raise_for_status\<close>
    and \<^verbatim>\<open>response.json()\<close> together either raise a \<^verbatim>\<open>RequestException\<close> (with the
    status code of its response, if it has one), raise some other exception, or give
    the decoded body;
  \<^item> \<open>json_loads\<close> is \<^verbatim>\<open>json.loads\<close> on a string;
  \<^item> \<open>py_str\<close> is \<^verbatim>\<open>str\<close> on a value that is not a string.
\<close>

datatype http_outcome =
    RequestException "int option"
  | Raised exn
  | Response json

record world =
  requests_post :: "nat \<Rightarrow> string \<Rightarrow> http_outcome"
  json_loads :: "string \<Rightarrow> exn + json"
  py_str :: "json \<Rightarrow> string"

text \<open>
  The observable effects are kept in a trace, in the order they happen: every \<^verbatim>\<open>time.sleep\<close> with its
  duration in seconds, every HTTP request, every call of \<^verbatim>\<open>get_cookie_details\<close>.
\<close>

datatype event = Sleep nat | Post string | ClientCall string

type_synonym state = "event list"

definition n_posts :: "state \<Rightarrow> nat" where
  "n_posts s = length (filter (\<lambda>e. case e of Post _ \<Rightarrow> True | _ \<Rightarrow> False) s)"

definition time_sleep :: "nat \<Rightarrow> state \<Rightarrow> state" where
  "time_sleep seconds s = s @ [Sleep seconds]"

text \<open>The three sliders of the sidebar (5 to 10, 5 to 100, 10 to 60).\<close>

record config =
  MAX_RETRIES :: int
  CHUNK_SIZE_PAUSE :: nat
  PAUSE_DURATION :: nat


section \<open>The classification client: \<^verbatim>\<open>get_cookie_details\<close>\<close>

definition format_value :: "world \<Rightarrow> json \<Rightarrow> string" where
  "format_value w v = (case v of JStr s \<Rightarrow> s | _ \<Rightarrow> py_str w v)"

definition loads_value :: "world \<Rightarrow> json \<Rightarrow> exn + json" where
  "loads_value w v =
     (case v of
        JStr t \<Rightarrow> json_loads w t
      | _ \<Rightarrow> Inl (TypeError (''the JSON object must be str, bytes or bytearray, not ''
                  @ type_name v)))"

text \<open>
  Lines 130 to 132: the body of the \<^verbatim>\<open>try\<close> after the response has been decoded.
  \<^verbatim>\<open>None\<close> is the value \<open>JNull\<close>.
\<close>

definition extract_payload :: "world \<Rightarrow> json \<Rightarrow> exn + json" where
  "extract_payload w candidates =
     and_then (getitem_0 candidates) (\<lambda>c.
     and_then (getitem_str ''content'' c) (\<lambda>content.
     and_then (getitem_str ''parts'' content) (\<lambda>parts.
     and_then (getitem_0 parts) (\<lambda>part.
     and_then (getitem_str ''text'' part) (loads_value w)))))"

definition read_response :: "world \<Rightarrow> json \<Rightarrow> exn + json" where
  "read_response w response_data =
     and_then (py_contains ''candidates'' response_data) (\<lambda>present.
       if \<not> present then Inr JNull
       else and_then (getitem_str ''candidates'' response_data) (\<lambda>candidates.
         if truthy candidates then extract_payload w candidates else Inr JNull))"

definition error_placeholder :: "string \<Rightarrow> int \<Rightarrow> json" where
  "error_placeholder cookie_name retries =
     JObj [(''cookieName'', JStr cookie_name),
           (''recommendedCategory'', JStr ''Error''),
           (''justification'',
              JStr (''API call failed after '' @ str_int retries @ '' attempts.''))]"

text \<open>
  The loop \<^verbatim>\<open>for attempt in range(retries)\<close>, over the attempt numbers still to come.
\<close>

fun attempts :: "world \<Rightarrow> string \<Rightarrow> int \<Rightarrow> nat list \<Rightarrow> state \<Rightarrow> (exn + json) \<times> state" where
  "attempts w cookie_name retries [] s = (Inr (error_placeholder cookie_name retries), s)"
| "attempts w cookie_name retries (attempt # rest) s =
     (let s1 = s @ [Post cookie_name] in
      case requests_post w (n_posts s) cookie_name of
        Response response_data \<Rightarrow> (read_response w response_data, s1)
      | Raised e \<Rightarrow> (Inl e, s1)
      | RequestException status_code \<Rightarrow>
          if status_code = Some 429
          then attempts w cookie_name retries rest (time_sleep 60 s1)
          else attempts w cookie_name retries rest (time_sleep (2 ^ attempt) s1))"

definition get_cookie_details :: "world \<Rightarrow> string \<Rightarrow> int \<Rightarrow> state \<Rightarrow> (exn + json) \<times> state" where
  "get_cookie_details w cookie_name retries s =
     attempts w cookie_name retries [0..<nat retries] (s @ [ClientCall cookie_name])"


section \<open>Reconciliation and the batch: \<^verbatim>\<open>process_dataframe\<close>\<close>

record result =
  Cookie_Name :: string
  Domain_Category :: string
  Recommended_Category :: json
  Justification :: json

text \<open>Lines 161 to 175: the final category and justification.\<close>

definition reconcile :: "world \<Rightarrow> json \<Rightarrow> json \<Rightarrow> string \<Rightarrow> json \<times> json" where
  "reconcile w gemini_category gemini_justification domain_category =
     (if gemini_category = JStr domain_category then
        (if gemini_category = JStr ''Unknown''
         then (gemini_category, JStr ''Need confirmation from Client'')
         else (gemini_category, JStr ''N/A''))
      else if gemini_category = JStr ''Unknown'' then (JStr domain_category, JStr ''N/A'')
      else if domain_category \<noteq> ''Unknown'' then
        (JStr (domain_category @ ''/'' @ format_value w gemini_category),
         JStr (''Depending on the website's use case it can be classified as ''
               @ domain_category @ ''/'' @ format_value w gemini_category @ ''. ''
               @ format_value w gemini_justification))
      else (gemini_category, gemini_justification))"

text \<open>
  Lines 158 to 183: what is appended to \<^verbatim>\<open>results_list\<close> for the value that the client
  returned, or the exception raised on the way.
\<close>

definition reconcile_record :: "world \<Rightarrow> string \<Rightarrow> string \<Rightarrow> json \<Rightarrow> exn + result list" where
  "reconcile_record w cookie_name domain_category api_details =
     (if truthy api_details then
        and_then (dict_get ''recommendedCategory'' (JStr ''Unknown'') api_details) (\<lambda>gemini_category.
        and_then (dict_get ''justification'' (JStr '''') api_details) (\<lambda>gemini_justification.
          let (final_category, final_justification) =
                reconcile w gemini_category gemini_justification domain_category
          in Inr [\<lparr>Cookie_Name = cookie_name, Domain_Category = domain_category,
                   Recommended_Category = final_category,
                   Justification = final_justification\<rparr>]))
      else Inr [])"

text \<open>Lines 155 to 183: the body of the \<^verbatim>\<open>try\<close>.\<close>

definition try_body :: "world \<Rightarrow> config \<Rightarrow> string \<times> string \<Rightarrow> state \<Rightarrow> (exn + result list) \<times> state" where
  "try_body w cfg record s =
     (let (cookie_name, domain_category) = record;
          s1 = time_sleep 1 s;
          (api_details, s2) = get_cookie_details w cookie_name (MAX_RETRIES cfg) s1
      in (and_then api_details (reconcile_record w cookie_name domain_category), s2))"

text \<open>Lines 154 to 190: the \<^verbatim>\<open>try\<close> with its \<^verbatim>\<open>except Exception\<close>.\<close>

definition process_record :: "world \<Rightarrow> config \<Rightarrow> string \<times> string \<Rightarrow> state \<Rightarrow> result list \<times> state" where
  "process_record w cfg record s =
     (case try_body w cfg record s of
        (Inr appended, s') \<Rightarrow> (appended, s')
      | (Inl e, s') \<Rightarrow>
          ([\<lparr>Cookie_Name = fst record, Domain_Category = snd record,
             Recommended_Category = JStr ''Processing Error'',
             Justification = JStr (str_exn e)\<rparr>], s'))"

text \<open>
  The loop of lines 152 to 196, at position \<open>index\<close> with \<open>results_list\<close> accumulated so
  far. The test of line 194 is outside the \<^verbatim>\<open>try\<close>: a zero \<^verbatim>\<open>CHUNK_SIZE_PAUSE\<close> raises
  there and ends the loop.
\<close>

fun process_loop ::
  "world \<Rightarrow> config \<Rightarrow> nat \<Rightarrow> nat \<Rightarrow> (string \<times> string) list \<Rightarrow> result list \<Rightarrow> state
     \<Rightarrow> (exn + result list) \<times> state" where
  "process_loop w cfg total_cookies index [] results_list s = (Inr results_list, s)"
| "process_loop w cfg total_cookies index (record # rest) results_list s =
     (let (appended, s1) = process_record w cfg record s in
      if CHUNK_SIZE_PAUSE cfg = 0 then (Inl (ZeroDivisionError ''integer modulo by zero''), s1)
      else
        let s2 = (if (index + 1) mod CHUNK_SIZE_PAUSE cfg = 0 \<and> index + 1 < total_cookies
                  then time_sleep (PAUSE_DURATION cfg) s1 else s1)
        in process_loop w cfg total_cookies (index + 1) rest (results_list @ appended) s2)"

definition process_dataframe ::
  "world \<Rightarrow> config \<Rightarrow> (string \<times> string) list \<Rightarrow> state \<Rightarrow> (exn + result list) \<times> state" where
  "process_dataframe w cfg cookie_records s =
     process_loop w cfg (length cookie_records) 0 cookie_records [] s"


section \<open>Deduplication and the join back onto the input\<close>

text \<open>\<^verbatim>\<open>drop_duplicates(subset=["Cookie Name"])\<close>: the first row of every name, in order.\<close>

fun drop_duplicates :: "(string \<times> string) list \<Rightarrow> (string \<times> string) list" where
  "drop_duplicates [] = []"
| "drop_duplicates (row # rows) =
     row # filter (\<lambda>r. fst r \<noteq> fst row) (drop_duplicates rows)"

record output_row =
  row_Cookie_Name :: string
  row_Domain_Category :: string
  row_Recommended_Category :: "json option"
  row_Justification :: "json option"

text \<open>
  \<^verbatim>\<open>analysis_results_df[result_columns]\<close>: a frame built from an empty list has no
  columns at all, and selecting the three columns from it raises.
\<close>

definition select_result_columns :: "result list \<Rightarrow> exn + (string \<times> json \<times> json) list" where
  "select_result_columns results_list =
     (if results_list = []
      then Inl (KeyError (''\"None of [Index(['' @ quoted ''Cookie Name'' @ '', ''
                 @ quoted ''Recommended Category'' @ '', '' @ quoted ''Justification''
                 @ ''], dtype='' @ quoted ''object'' @ '')] are in the [columns]\"''))
      else Inr (map (\<lambda>r. (Cookie_Name r, Recommended_Category r, Justification r)) results_list))"

text \<open>
  \<^verbatim>\<open>pd.merge(..., on="Cookie Name", how="left")\<close>: every left row, in order, once for each
  right row of the same name, or once with empty cells when there is none. The cells keep
  the Python values of the result rows. A column in which every value is a number is
  stored by pandas as a numeric column, where an empty cell turns integers into floats;
  this numeric storage is not modelled, and it never applies to a column that holds a
  string.
\<close>

definition merge_left ::
  "(string \<times> string) list \<Rightarrow> (string \<times> json \<times> json) list \<Rightarrow> output_row list" where
  "merge_left input_df right =
     concat (map (\<lambda>(cookie_name, domain_category).
        case filter (\<lambda>r. fst r = cookie_name) right of
          [] \<Rightarrow> [\<lparr>row_Cookie_Name = cookie_name, row_Domain_Category = domain_category,
                  row_Recommended_Category = None, row_Justification = None\<rparr>]
        | matches \<Rightarrow>
            map (\<lambda>(_, category, justification).
                   \<lparr>row_Cookie_Name = cookie_name, row_Domain_Category = domain_category,
                    row_Recommended_Category = Some category,
                    row_Justification = Some justification\<rparr>) matches) input_df)"

text \<open>
  Lines 229 to 247, run when "Start Analysis" is pressed; \<open>Inl\<close> is the exception that
  the enclosing \<^verbatim>\<open>except Exception\<close> reports instead of a result table.
\<close>

definition start_analysis ::
  "world \<Rightarrow> config \<Rightarrow> (string \<times> string) list \<Rightarrow> state \<Rightarrow> (exn + output_row list) \<times> state" where
  "start_analysis w cfg input_df s =
     (let unique_cookies_df = drop_duplicates input_df;
          (analysis_results_df, s') = process_dataframe w cfg unique_cookies_df s
      in (and_then analysis_results_df (\<lambda>results_list.
            and_then (select_result_columns results_list) (\<lambda>right.
              Inr (merge_left input_df right))), s'))"


section \<open>Derived notions and sample data\<close>

text \<open>What a failed attempt leaves in the trace: the request and the sleep after it.\<close>

definition failed_attempt :: "string \<Rightarrow> int option \<Rightarrow> nat \<Rightarrow> event list" where
  "failed_attempt cookie_name status_code attempt =
     [Post cookie_name, Sleep (if status_code = Some 429 then 60 else 2 ^ attempt)]"

text \<open>The cookie names for which \<^verbatim>\<open>get_cookie_details\<close> was called, in order.\<close>

fun client_calls :: "state \<Rightarrow> string list" where
  "client_calls [] = []"
| "client_calls (ClientCall cookie_name # s) = cookie_name # client_calls s"
| "client_calls (_ # s) = client_calls s"

text \<open>The step of line 194 to 196 on the trace.\<close>

definition chunk_pause :: "config \<Rightarrow> nat \<Rightarrow> nat \<Rightarrow> state \<Rightarrow> state" where
  "chunk_pause cfg total_cookies index s =
     (if (index + 1) mod CHUNK_SIZE_PAUSE cfg = 0 \<and> index + 1 < total_cookies
      then time_sleep (PAUSE_DURATION cfg) s else s)"

text \<open>
  A sample run: the API answers cookie \<^verbatim>\<open>_ga\<close> at the third request (after a 429 and a
  dropped connection), has no candidates for \<^verbatim>\<open>empty\<close>, sends text that is not JSON for
  \<^verbatim>\<open>bad\<close> and a candidate without content for \<^verbatim>\<open>nokey\<close>, and fails with status 503 for
  every other name.
\<close>

definition demo_payload :: json where
  "demo_payload =
     JObj [(''cookieName'', JStr ''_ga''),
           (''recommendedCategory'', JStr ''Performance Cookies''),
           (''justification'', JStr ''Counts visits.'')]"

definition demo_body :: "string \<Rightarrow> json" where
  "demo_body t =
     JObj [(''candidates'',
            JArr [JObj [(''content'', JObj [(''parts'', JArr [JObj [(''text'', JStr t)]])])]])]"

definition demo_post :: "nat \<Rightarrow> string \<Rightarrow> http_outcome" where
  "demo_post n cookie_name =
     (if cookie_name = ''_ga'' then
        (if n = 0 then RequestException (Some 429)
         else if n = 1 then RequestException None
         else Response (demo_body ''ok''))
      else if cookie_name = ''empty'' then Response (JObj [])
      else if cookie_name = ''bad'' then Response (demo_body ''not json'')
      else if cookie_name = ''nokey'' then Response (JObj [(''candidates'', JArr [JObj []])])
      else RequestException (Some 503))"

definition demo_world :: world where
  "demo_world =
     \<lparr>requests_post = demo_post,
      json_loads = (\<lambda>t. if t = ''ok'' then Inr demo_payload
                        else Inl (JSONDecodeError ''Expecting value: line 1 column 1 (char 0)'')),
      py_str = type_name\<rparr>"

definition demo_config :: config where
  "demo_config = \<lparr>MAX_RETRIES = 5, CHUNK_SIZE_PAUSE = 5, PAUSE_DURATION = 10\<rparr>"

text \<open>A result row whose category and justification are strings.\<close>

definition final_result :: "string \<Rightarrow> string \<Rightarrow> string \<Rightarrow> string \<Rightarrow> result" where
  "final_result cookie_name domain_category final_category final_justification =
     \<lparr>Cookie_Name = cookie_name, Domain_Category = domain_category,
      Recommended_Category = JStr final_category, Justification = JStr final_justification\<rparr>"

definition demo_result :: "string \<Rightarrow> string \<Rightarrow> json" where
  "demo_result G J =
     JObj [(''cookieName'', JStr ''c''), (''recommendedCategory'', JStr G),
           (''justification'', JStr J)]"

text \<open>
  The three columns taken from the result rows, and the row that a left row gets from a
  lookup table of results by cookie name.
\<close>

definition result_columns :: "result list \<Rightarrow> (string \<times> json \<times> json) list" where
  "result_columns results_list =
     map (\<lambda>r. (Cookie_Name r, Recommended_Category r, Justification r)) results_list"

definition joined_row :: "(string \<rightharpoonup> json \<times> json) \<Rightarrow> string \<times> string \<Rightarrow> output_row" where
  "joined_row lookup row =
     \<lparr>row_Cookie_Name = fst row, row_Domain_Category = snd row,
      row_Recommended_Category = map_option fst (lookup (fst row)),
      row_Justification = map_option snd (lookup (fst row))\<rparr>"

text \<open>A sample table with a duplicated name, and what the analysis makes of it.\<close>

definition demo_input :: "(string \<times> string) list" where
  "demo_input = [(''_ga'', ''Unknown''), (''empty'', ''Essential''), (''_ga'', ''Functional'')]"

definition demo_table :: "output_row list" where
  "demo_table =
     [\<lparr>row_Cookie_Name = ''_ga'', row_Domain_Category = ''Unknown'',
       row_Recommended_Category = Some (JStr ''Performance Cookies''),
       row_Justification = Some (JStr ''Counts visits.'')\<rparr>,
      \<lparr>row_Cookie_Name = ''empty'', row_Domain_Category = ''Essential'',
       row_Recommended_Category = None, row_Justification = None\<rparr>,
      \<lparr>row_Cookie_Name = ''_ga'', row_Domain_Category = ''Functional'',
       row_Recommended_Category = Some (JStr ''Performance Cookies''),
       row_Justification = Some (JStr ''Counts visits.'')\<rparr>]"

definition demo_trace :: state where
  "demo_trace =
     [Sleep 1, ClientCall ''_ga'', Post ''_ga'', Sleep 60, Post ''_ga'', Sleep 2, Post ''_ga'',
      Sleep 1, ClientCall ''empty'', Post ''empty'']"

text \<open>A second sample table, with a cookie for which every request fails.\<close>

definition demo_input_sid :: "(string \<times> string) list" where
  "demo_input_sid = [(''sid'', ''Essential''), (''_ga'', ''Unknown''), (''sid'', ''Functional'')]"

definition demo_sentence :: string where
  "demo_sentence = ''Depending on the website's use case it can be classified as Essential/Error. API call failed after 5 attempts.''"

definition demo_table_sid :: "output_row list" where
  "demo_table_sid =
     [\<lparr>row_Cookie_Name = ''sid'', row_Domain_Category = ''Essential'',
       row_Recommended_Category = Some (JStr ''Essential/Error''),
       row_Justification = Some (JStr demo_sentence)\<rparr>,
      \<lparr>row_Cookie_Name = ''_ga'', row_Domain_Category = ''Unknown'',
       row_Recommended_Category = Some (JStr ''Performance Cookies''),
       row_Justification = Some (JStr ''Counts visits.'')\<rparr>,
      \<lparr>row_Cookie_Name = ''sid'', row_Domain_Category = ''Functional'',
       row_Recommended_Category = Some (JStr ''Essential/Error''),
       row_Justification = Some (JStr demo_sentence)\<rparr>]"


section \<open>Basic facts\<close>

lemma n_posts_append [simp]: "n_posts (s @ t) = n_posts s + n_posts t"
  by (simp add: n_posts_def)

lemma n_posts_simps [simp]:
  "n_posts [] = 0"
  "n_posts (Post name # s) = Suc (n_posts s)"
  "n_posts (Sleep d # s) = n_posts s"
  "n_posts (ClientCall name # s) = n_posts s"
  by (simp_all add: n_posts_def)

lemma client_calls_append [simp]: "client_calls (s @ t) = client_calls s @ client_calls t"
  by (induction s rule: client_calls.induct) simp_all

lemma upt_split: "k \<le> n \<Longrightarrow> [0..<n] = [0..<k] @ [k..<n]"
  by (metis le_Suc_ex upt_add_eq_append zero_le)


section \<open>The retry loop\<close>

text \<open>
  A run of attempts that all fail with a request exception leaves one request and one
  sleep each in the trace, and the loop goes on with the attempts that remain.
\<close>

lemma attempts_failing_prefix:
  "\<forall>i<length pre. requests_post w (n_posts s + i) name = RequestException (st i) \<Longrightarrow>
   attempts w name r (pre @ rest) s =
   attempts w name r rest
     (s @ concat (map (\<lambda>i. failed_attempt name (st i) (pre ! i)) [0..<length pre]))"
proof (induction pre arbitrary: s st)
  case Nil
  then show ?case by simp
next
  case (Cons a pre)
  let ?s1 = "s @ failed_attempt name (st 0) a"
  from Cons.prems have head: "requests_post w (n_posts s) name = RequestException (st 0)"
    by force
  have tail: "\<forall>i<length pre.
      requests_post w (n_posts ?s1 + i) name = RequestException ((st \<circ> Suc) i)"
    using Cons.prems by (auto simp: failed_attempt_def)
  have step: "attempts w name r ((a # pre) @ rest) s = attempts w name r (pre @ rest) ?s1"
    using head by (simp add: failed_attempt_def time_sleep_def)
  show ?case
    unfolding step Cons.IH [OF tail]
    by (simp add: map_upt_Suc del: upt_Suc)
qed

lemma failing_prefix:
  assumes "k \<le> nat retries"
    and "\<forall>a<k. requests_post w (n_posts s + a) name = RequestException (status a)"
  shows "get_cookie_details w name retries s =
         attempts w name retries [k..<nat retries]
           (s @ [ClientCall name] @ concat (map (\<lambda>a. failed_attempt name (status a) a) [0..<k]))"
proof -
  have pre: "\<forall>i<length [0..<k].
      requests_post w (n_posts (s @ [ClientCall name]) + i) name = RequestException (status i)"
    using assms(2) by simp
  have split: "[0..<nat retries] = [0..<k] @ [k..<nat retries]"
    using assms(1) by (rule upt_split)
  have "get_cookie_details w name retries s =
        attempts w name retries ([0..<k] @ [k..<nat retries]) (s @ [ClientCall name])"
    unfolding get_cookie_details_def using split by simp
  also have "\<dots> = attempts w name retries [k..<nat retries]
      ((s @ [ClientCall name])
         @ concat (map (\<lambda>i. failed_attempt name (status i) ([0..<k] ! i)) [0..<length [0..<k]]))"
    by (rule attempts_failing_prefix [OF pre])
  also have "concat (map (\<lambda>i. failed_attempt name (status i) ([0..<k] ! i)) [0..<length [0..<k]])
      = concat (map (\<lambda>a. failed_attempt name (status a) a) [0..<k])"
    by (intro arg_cong [where f = concat] map_cong) auto
  finally show ?thesis by simp
qed

lemma all_attempts_fail:
  assumes "\<forall>a<nat retries. requests_post w (n_posts s + a) name = RequestException (status a)"
  shows "get_cookie_details w name retries s =
         (Inr (error_placeholder name retries),
          s @ [ClientCall name]
            @ concat (map (\<lambda>a. failed_attempt name (status a) a) [0..<nat retries]))"
  using failing_prefix [OF le_refl assms] by simp

text \<open>
  Claim C3. For every cookie name and retry count \<open>r\<close>: if each of the \<open>r\<close> requests
  fails with a request exception, the client returns (it does not raise) the dictionary
  with \<^verbatim>\<open>recommendedCategory\<close> "Error" and the justification
  "API call failed after \<open>r\<close> attempts."; exactly \<open>r\<close> requests have been sent.
\<close>

theorem exhausted_retries_return_error_result:
  assumes "\<forall>a<nat retries. \<exists>status_code.
             requests_post w (n_posts s + a) cookie_name = RequestException status_code"
  shows "fst (get_cookie_details w cookie_name retries s) =
           Inr (JObj [(''cookieName'', JStr cookie_name),
                      (''recommendedCategory'', JStr ''Error''),
                      (''justification'',
                         JStr (''API call failed after '' @ str_int retries @ '' attempts.''))])
         \<and> n_posts (snd (get_cookie_details w cookie_name retries s)) = n_posts s + nat retries"
proof -
  define status where "status a =
    (case requests_post w (n_posts s + a) cookie_name of RequestException c \<Rightarrow> c | _ \<Rightarrow> None)"
    for a
  have "\<forall>a<nat retries.
          requests_post w (n_posts s + a) cookie_name = RequestException (status a)"
    using assms by (auto simp: status_def)
  from all_attempts_fail [OF this] show ?thesis
    by (simp add: error_placeholder_def failed_attempt_def n_posts_def filter_concat
        length_concat comp_def sum_list_triv)
qed

theorem exhausted_retries_witness:
  "fst (get_cookie_details demo_world ''sid'' 5 []) =
     Inr (JObj [(''cookieName'', JStr ''sid''),
                (''recommendedCategory'', JStr ''Error''),
                (''justification'', JStr ''API call failed after 5 attempts.'')])
   \<and> n_posts (snd (get_cookie_details demo_world ''sid'' 5 [])) = 5"
  using exhausted_retries_return_error_result [of 5 demo_world "[]" "''sid''"]
  by (simp add: demo_world_def demo_post_def str_int_def str_nat.simps)

section \<open>The reconciliation rules\<close>

lemma reconcile_record_dict:
  assumes "map_of api_details ''recommendedCategory'' = Some G"
    and "map_of api_details ''justification'' = Some J"
  shows "reconcile_record w cookie_name D (JObj api_details) =
         Inr [\<lparr>Cookie_Name = cookie_name, Domain_Category = D,
               Recommended_Category = fst (reconcile w G J D),
               Justification = snd (reconcile w G J D)\<rparr>]"
proof -
  from assms(1) have "api_details \<noteq> []" by auto
  then show ?thesis
    using assms by (simp add: reconcile_record_def and_then_def split_beta)
qed

text \<open>
  Claim C1. For a classification result that is a dictionary with recommended category
  \<open>G\<close> and justification \<open>J\<close> (both strings) and a domain category \<open>D\<close>, exactly one
  row is produced, with category and justification
  \<^item> \<open>G\<close> and "Need confirmation from Client" if \<open>G = D = "Unknown"\<close>;
  \<^item> \<open>G\<close> and "N/A" if \<open>G = D\<close> and \<open>G\<close> is not "Unknown";
  \<^item> \<open>D\<close> and "N/A" if \<open>G \<noteq> D\<close> and \<open>G = "Unknown"\<close>;
  \<^item> \<open>G\<close> and \<open>J\<close> if \<open>G \<noteq> D\<close>, \<open>G\<close> is not "Unknown" and \<open>D = "Unknown"\<close>;
  \<^item> \<open>D/G\<close> and "Depending on the website's use case it can be classified as \<open>D/G\<close>. \<open>J\<close>"
    if \<open>G \<noteq> D\<close> and neither is "Unknown".
\<close>

theorem reconciliation_rule_table:
  assumes "map_of api_details ''recommendedCategory'' = Some (JStr G)"
    and "map_of api_details ''justification'' = Some (JStr J)"
  shows "(G = D \<and> G = ''Unknown'' \<longrightarrow>
            reconcile_record w cookie_name D (JObj api_details) =
              Inr [final_result cookie_name D G ''Need confirmation from Client''])
       \<and> (G = D \<and> G \<noteq> ''Unknown'' \<longrightarrow>
            reconcile_record w cookie_name D (JObj api_details) =
              Inr [final_result cookie_name D G ''N/A''])
       \<and> (G \<noteq> D \<and> G = ''Unknown'' \<longrightarrow>
            reconcile_record w cookie_name D (JObj api_details) =
              Inr [final_result cookie_name D D ''N/A''])
       \<and> (G \<noteq> D \<and> G \<noteq> ''Unknown'' \<and> D = ''Unknown'' \<longrightarrow>
            reconcile_record w cookie_name D (JObj api_details) =
              Inr [final_result cookie_name D G J])
       \<and> (G \<noteq> D \<and> G \<noteq> ''Unknown'' \<and> D \<noteq> ''Unknown'' \<longrightarrow>
            reconcile_record w cookie_name D (JObj api_details) =
              Inr [final_result cookie_name D (D @ ''/'' @ G)
                     (''Depending on the website's use case it can be classified as ''
                        @ D @ ''/'' @ G @ ''. '' @ J)])"
  unfolding reconcile_record_dict [OF assms]
  by (simp add: reconcile_def final_result_def format_value_def)

theorem reconciliation_rule_table_witness:
  "reconcile_record demo_world ''c'' ''Unknown'' (demo_result ''Unknown'' ''j'') =
     Inr [final_result ''c'' ''Unknown'' ''Unknown'' ''Need confirmation from Client'']
   \<and> reconcile_record demo_world ''c'' ''Performance'' (demo_result ''Performance'' ''j'') =
     Inr [final_result ''c'' ''Performance'' ''Performance'' ''N/A'']
   \<and> reconcile_record demo_world ''c'' ''Performance'' (demo_result ''Unknown'' ''j'') =
     Inr [final_result ''c'' ''Performance'' ''Performance'' ''N/A'']
   \<and> reconcile_record demo_world ''c'' ''Unknown'' (demo_result ''Performance'' ''j'') =
     Inr [final_result ''c'' ''Unknown'' ''Performance'' ''j'']
   \<and> reconcile_record demo_world ''c'' ''Essential'' (demo_result ''Targeting'' ''j'') =
     Inr [final_result ''c'' ''Essential'' ''Essential/Targeting''
            ''Depending on the website's use case it can be classified as Essential/Targeting. j'']"
proof -
  have a: "map_of [(''cookieName'', JStr ''c''), (''recommendedCategory'', JStr G), (''justification'', JStr J)]
             ''recommendedCategory'' = Some (JStr G)"
    and b: "map_of [(''cookieName'', JStr ''c''), (''recommendedCategory'', JStr G), (''justification'', JStr J)]
             ''justification'' = Some (JStr J)" for G J
    by simp_all
  show ?thesis
    unfolding demo_result_def
    using reconciliation_rule_table [OF a b, of "''Unknown''" "''Unknown''" demo_world "''c''" "''j''"]
      reconciliation_rule_table [OF a b, of "''Performance''" "''Performance''" demo_world "''c''" "''j''"]
      reconciliation_rule_table [OF a b, of "''Unknown''" "''Performance''" demo_world "''c''" "''j''"]
      reconciliation_rule_table [OF a b, of "''Performance''" "''Unknown''" demo_world "''c''" "''j''"]
      reconciliation_rule_table [OF a b, of "''Targeting''" "''Essential''" demo_world "''c''" "''j''"]
    by simp
qed

text \<open>
  Claim C8, as stated, fails: with the same recommended category and the same domain
  category, two different justifications from the API give two different final
  justifications when the domain category is "Unknown".
\<close>

theorem justification_not_determined_by_pair:
  "reconcile demo_world (JStr ''Performance'') (JStr ''a'') ''Unknown''
     \<noteq> reconcile demo_world (JStr ''Performance'') (JStr ''b'') ''Unknown''"
  by (simp add: reconcile_def)

text \<open>
  Claim C8, amended. With the same recommended category \<open>G\<close> and domain category \<open>D\<close>,
  two invocations produce the same final category; their final justifications are the
  same exactly when \<open>G = D\<close>, or \<open>G\<close> is "Unknown", or the two justifications from the
  API agree (as values when \<open>D\<close> is "Unknown", as printed in the sentence otherwise).
\<close>

theorem reconcile_dependence:
  "fst (reconcile w G J1 D) = fst (reconcile w G J2 D)
   \<and> (snd (reconcile w G J1 D) = snd (reconcile w G J2 D)) =
       (G = JStr D \<or> G = JStr ''Unknown''
        \<or> (if D = ''Unknown'' then J1 = J2 else format_value w J1 = format_value w J2))"
  by (simp add: reconcile_def)

section \<open>The client and the batch loop, step by step\<close>

lemma n_posts_failed_attempts [simp]:
  "n_posts (concat (map (\<lambda>a. failed_attempt name (st a) a) [0..<k])) = k"
  by (induction k) (simp_all add: failed_attempt_def)

lemma client_calls_failed_attempts [simp]:
  "client_calls (concat (map (\<lambda>a. failed_attempt name (st a) a) [0..<k])) = []"
  by (induction k) (simp_all add: failed_attempt_def)

lemma n_posts_time_sleep [simp]: "n_posts (time_sleep d s) = n_posts s"
  by (simp add: time_sleep_def)

lemma client_calls_time_sleep [simp]: "client_calls (time_sleep d s) = client_calls s"
  by (simp add: time_sleep_def)

lemma client_calls_chunk_pause [simp]:
  "client_calls (chunk_pause cfg total_cookies index s) = client_calls s"
  by (simp add: chunk_pause_def)

lemma attempts_client_calls [simp]:
  "client_calls (snd (attempts w name r as s)) = client_calls s"
  by (induction as arbitrary: s) (simp_all add: Let_def split: http_outcome.splits)

lemma get_cookie_details_client_calls [simp]:
  "client_calls (snd (get_cookie_details w name r s)) = client_calls s @ [name]"
  by (simp add: get_cookie_details_def)

lemma response_at:
  assumes "k < nat retries"
    and "\<forall>a<k. requests_post w (n_posts s + a) name = RequestException (status a)"
    and "requests_post w (n_posts s + k) name = Response response_data"
  shows "get_cookie_details w name retries s =
         (read_response w response_data,
          s @ [ClientCall name] @ concat (map (\<lambda>a. failed_attempt name (status a) a) [0..<k])
            @ [Post name])"
proof -
  have "[k..<nat retries] = k # [Suc k..<nat retries]"
    using assms(1) by (rule upt_conv_Cons)
  with failing_prefix [OF less_imp_le [OF assms(1)] assms(2)] assms(3)
  show ?thesis by simp
qed

lemma raised_at:
  assumes "k < nat retries"
    and "\<forall>a<k. requests_post w (n_posts s + a) name = RequestException (status a)"
    and "requests_post w (n_posts s + k) name = Raised e"
  shows "get_cookie_details w name retries s =
         (Inl e,
          s @ [ClientCall name] @ concat (map (\<lambda>a. failed_attempt name (status a) a) [0..<k])
            @ [Post name])"
proof -
  have "[k..<nat retries] = k # [Suc k..<nat retries]"
    using assms(1) by (rule upt_conv_Cons)
  with failing_prefix [OF less_imp_le [OF assms(1)] assms(2)] assms(3)
  show ?thesis by simp
qed

lemma read_response_no_candidates:
  assumes "case map_of response_data ''candidates'' of None \<Rightarrow> True
           | Some candidates \<Rightarrow> \<not> truthy candidates"
  shows "read_response w (JObj response_data) = Inr JNull"
proof (cases "map_of response_data ''candidates''")
  case None
  then have "''candidates'' \<notin> fst ` set response_data"
    by (simp add: map_of_eq_None_iff)
  then show ?thesis by (simp add: read_response_def and_then_def)
next
  case (Some c)
  then have "''candidates'' \<in> fst ` set response_data"
    by (metis map_of_eq_None_iff option.distinct(1))
  with Some assms show ?thesis by (simp add: read_response_def and_then_def)
qed

lemma read_response_candidates:
  assumes "map_of response_data ''candidates'' = Some candidates" and "truthy candidates"
  shows "read_response w (JObj response_data) = extract_payload w candidates"
proof -
  from assms(1) have "''candidates'' \<in> fst ` set response_data"
    by (metis map_of_eq_None_iff option.distinct(1))
  with assms show ?thesis by (simp add: read_response_def and_then_def)
qed

lemma process_record_unfold:
  "process_record w cfg (name, D) s =
     (case get_cookie_details w name (MAX_RETRIES cfg) (time_sleep 1 s) of
        (Inl e, s') \<Rightarrow>
          ([\<lparr>Cookie_Name = name, Domain_Category = D,
             Recommended_Category = JStr ''Processing Error'',
             Justification = JStr (str_exn e)\<rparr>], s')
      | (Inr api_details, s') \<Rightarrow>
          (case reconcile_record w name D api_details of
             Inl e \<Rightarrow>
               ([\<lparr>Cookie_Name = name, Domain_Category = D,
                  Recommended_Category = JStr ''Processing Error'',
                  Justification = JStr (str_exn e)\<rparr>], s')
           | Inr appended \<Rightarrow> (appended, s')))"
  by (simp add: process_record_def try_body_def and_then_def split: prod.splits sum.splits)

lemma process_loop_step:
  "CHUNK_SIZE_PAUSE cfg \<noteq> 0 \<Longrightarrow>
   process_loop w cfg total_cookies index (row # rest) results_list s =
   process_loop w cfg total_cookies (index + 1) rest
     (results_list @ fst (process_record w cfg row s))
     (chunk_pause cfg total_cookies index (snd (process_record w cfg row s)))"
  by (simp add: chunk_pause_def split_beta Let_def)

lemma process_record_client_calls [simp]:
  "client_calls (snd (process_record w cfg row s)) = client_calls s @ [fst row]"
proof -
  obtain name D where r: "row = (name, D)" by (cases "row")
  obtain res s' where g: "get_cookie_details w name (MAX_RETRIES cfg) (time_sleep 1 s) = (res, s')"
    by (cases "get_cookie_details w name (MAX_RETRIES cfg) (time_sleep 1 s)")
  have "client_calls s' = client_calls s @ [name]"
    using get_cookie_details_client_calls [of w name "MAX_RETRIES cfg" "time_sleep 1 s"]
    unfolding g by simp
  then show ?thesis
    unfolding r process_record_unfold g by (simp split: sum.splits)
qed

lemma process_loop_outputs:
  assumes "CHUNK_SIZE_PAUSE cfg \<noteq> 0"
  shows "\<exists>outs s'. process_loop w cfg total_cookies index records results_list s
                     = (Inr (results_list @ concat outs), s')
           \<and> list_all2 (\<lambda>row out. \<exists>si. out = fst (process_record w cfg row si)) records outs
           \<and> client_calls s' = client_calls s @ map fst records"
proof (induction records arbitrary: index results_list s)
  case Nil
  show ?case by simp
next
  case (Cons row rest)
  let ?out = "fst (process_record w cfg row s)"
  let ?s2 = "chunk_pause cfg total_cookies index (snd (process_record w cfg row s))"
  from Cons.IH [of "index + 1" "results_list @ ?out" ?s2]
  obtain outs s' where
    run: "process_loop w cfg total_cookies (index + 1) rest (results_list @ ?out) ?s2
            = (Inr ((results_list @ ?out) @ concat outs), s')"
    and each: "list_all2 (\<lambda>row out. \<exists>si. out = fst (process_record w cfg row si)) rest outs"
    and calls: "client_calls s' = client_calls ?s2 @ map fst rest"
    by blast
  have "process_loop w cfg total_cookies index (row # rest) results_list s
          = (Inr (results_list @ concat (?out # outs)), s')"
    unfolding process_loop_step [OF assms] run by simp
  moreover have "list_all2 (\<lambda>row out. \<exists>si. out = fst (process_record w cfg row si))
                   (row # rest) (?out # outs)"
    using each by auto
  moreover have "client_calls s' = client_calls s @ map fst (row # rest)"
    using calls by simp
  ultimately show ?case by blast
qed

section \<open>Empty responses, broken payloads and the per-record handler\<close>

text \<open>
  Claim C2. When the first response that arrives (after \<open>k\<close> failed attempts, \<open>k\<close> below
  the retry count) is a JSON object without candidates (no \<^verbatim>\<open>candidates\<close> key, or a
  value that Python takes as false), the client returns \<^verbatim>\<open>None\<close>, the record's pass
  through the loop appends nothing, neither a result nor an error row, and the loop goes
  on with the next record and the same result list.
\<close>

theorem no_candidates_record_dropped:
  assumes "k < nat (MAX_RETRIES cfg)"
    and "\<forall>a<k. requests_post w (n_posts s + a) cookie_name = RequestException (status_code a)"
    and "requests_post w (n_posts s + k) cookie_name = Response (JObj response_data)"
    and "case map_of response_data ''candidates'' of None \<Rightarrow> True
         | Some candidates \<Rightarrow> \<not> truthy candidates"
  shows "fst (get_cookie_details w cookie_name (MAX_RETRIES cfg) (time_sleep 1 s)) = Inr JNull
       \<and> fst (process_record w cfg (cookie_name, domain_category) s) = []
       \<and> (CHUNK_SIZE_PAUSE cfg \<noteq> 0 \<longrightarrow>
            process_loop w cfg total_cookies index ((cookie_name, domain_category) # rest)
              results_list s =
            process_loop w cfg total_cookies (index + 1) rest results_list
              (chunk_pause cfg total_cookies index
                 (snd (process_record w cfg (cookie_name, domain_category) s))))"
proof -
  have pre: "\<forall>a<k. requests_post w (n_posts (time_sleep 1 s) + a) cookie_name
               = RequestException (status_code a)"
    using assms(2) by simp
  have at: "requests_post w (n_posts (time_sleep 1 s) + k) cookie_name
              = Response (JObj response_data)"
    using assms(3) by simp
  have client: "fst (get_cookie_details w cookie_name (MAX_RETRIES cfg) (time_sleep 1 s))
                  = Inr JNull"
    unfolding response_at [OF assms(1) pre at] read_response_no_candidates [OF assms(4)]
    by simp
  have dropped: "fst (process_record w cfg (cookie_name, domain_category) s) = []"
    unfolding process_record_unfold response_at [OF assms(1) pre at]
      read_response_no_candidates [OF assms(4)]
    by (simp add: reconcile_record_def)
  show ?thesis
    using client dropped by (simp add: process_loop_step del: process_loop.simps)
qed

theorem no_candidates_witness:
  "fst (get_cookie_details demo_world ''empty'' (MAX_RETRIES demo_config) (time_sleep 1 [])) = Inr JNull
   \<and> fst (process_record demo_world demo_config (''empty'', ''Essential'') []) = []
   \<and> process_loop demo_world demo_config 2 0 [(''empty'', ''Essential''), (''sid'', ''Essential'')] [] [] =
       process_loop demo_world demo_config 2 1 [(''sid'', ''Essential'')] []
         (chunk_pause demo_config 2 0
            (snd (process_record demo_world demo_config (''empty'', ''Essential'') [])))"
proof -
  have a: "0 < nat (MAX_RETRIES demo_config)"
    by (simp add: demo_config_def)
  have b: "\<forall>a<0. requests_post demo_world (n_posts [] + a) ''empty'' = RequestException None"
    by simp
  have c: "requests_post demo_world (n_posts [] + 0) ''empty'' = Response (JObj [])"
    by (simp add: demo_world_def demo_post_def)
  have d: "case map_of [] ''candidates'' of None \<Rightarrow> True
           | Some candidates \<Rightarrow> \<not> truthy candidates"
    by simp
  have e: "CHUNK_SIZE_PAUSE demo_config \<noteq> 0"
    by (simp add: demo_config_def)
  show ?thesis
    using no_candidates_record_dropped [OF a b c d, of "''Essential''" 2 0
        "[(''sid'', ''Essential'')]" "[]"] e
    by simp
qed

text \<open>
  Claim C10. When a response arrives with candidates but reading the payload out of it
  raises (the text is not JSON, a key is missing, ...), the exception leaves
  \<^verbatim>\<open>get_cookie_details\<close> at once: the trace ends with the request of that attempt and
  no further request or sleep follows. The handler of the batch loop turns it into a
  "Processing Error" row whose justification is the text of the exception.
\<close>

theorem payload_exception_not_retried:
  assumes "k < nat (MAX_RETRIES cfg)"
    and "\<forall>a<k. requests_post w (n_posts s + a) cookie_name = RequestException (status_code a)"
    and "requests_post w (n_posts s + k) cookie_name = Response (JObj response_data)"
    and "map_of response_data ''candidates'' = Some candidates"
    and "truthy candidates"
    and "extract_payload w candidates = Inl e"
  shows "get_cookie_details w cookie_name (MAX_RETRIES cfg) (time_sleep 1 s) =
           (Inl e,
            s @ [Sleep 1, ClientCall cookie_name]
              @ concat (map (\<lambda>a. [Post cookie_name,
                                    Sleep (if status_code a = Some 429 then 60 else 2 ^ a)])
                         [0..<k])
              @ [Post cookie_name])
       \<and> process_record w cfg (cookie_name, domain_category) s =
           ([\<lparr>Cookie_Name = cookie_name, Domain_Category = domain_category,
              Recommended_Category = JStr ''Processing Error'',
              Justification = JStr (str_exn e)\<rparr>],
            s @ [Sleep 1, ClientCall cookie_name]
              @ concat (map (\<lambda>a. [Post cookie_name,
                                    Sleep (if status_code a = Some 429 then 60 else 2 ^ a)])
                         [0..<k])
              @ [Post cookie_name])"
proof -
  have pre: "\<forall>a<k. requests_post w (n_posts (time_sleep 1 s) + a) cookie_name
               = RequestException (status_code a)"
    using assms(2) by simp
  have at: "requests_post w (n_posts (time_sleep 1 s) + k) cookie_name
              = Response (JObj response_data)"
    using assms(3) by simp
  have client: "get_cookie_details w cookie_name (MAX_RETRIES cfg) (time_sleep 1 s) =
           (Inl e,
            s @ [Sleep 1, ClientCall cookie_name]
              @ concat (map (\<lambda>a. [Post cookie_name,
                                    Sleep (if status_code a = Some 429 then 60 else 2 ^ a)])
                         [0..<k])
              @ [Post cookie_name])"
    unfolding response_at [OF assms(1) pre at] read_response_candidates [OF assms(4,5)] assms(6)
    by (simp add: time_sleep_def failed_attempt_def)
  show ?thesis
    unfolding process_record_unfold client by simp
qed

theorem payload_exception_witness:
  "process_record demo_world demo_config (''bad'', ''B'') [] =
     ([\<lparr>Cookie_Name = ''bad'', Domain_Category = ''B'',
        Recommended_Category = JStr ''Processing Error'',
        Justification = JStr ''Expecting value: line 1 column 1 (char 0)''\<rparr>],
      [Sleep 1, ClientCall ''bad'', Post ''bad''])
   \<and> process_record demo_world demo_config (''nokey'', ''B'') [] =
     ([\<lparr>Cookie_Name = ''nokey'', Domain_Category = ''B'',
        Recommended_Category = JStr ''Processing Error'',
        Justification = JStr (quoted ''content'')\<rparr>],
      [Sleep 1, ClientCall ''nokey'', Post ''nokey''])"
proof -
  have a: "0 < nat (MAX_RETRIES demo_config)"
    by (simp add: demo_config_def)
  have b: "\<forall>a<0. requests_post demo_world (n_posts [] + a) name = RequestException None" for name
    by simp
  have c1: "requests_post demo_world (n_posts [] + 0) ''bad''
      = Response (JObj [(''candidates'',
            JArr [JObj [(''content'', JObj [(''parts'', JArr [JObj [(''text'', JStr ''not json'')]])])]])])"
    by (simp add: demo_world_def demo_post_def demo_body_def)
  have c2: "requests_post demo_world (n_posts [] + 0) ''nokey''
      = Response (JObj [(''candidates'', JArr [JObj []])])"
    by (simp add: demo_world_def demo_post_def)
  have d1: "map_of [(''candidates'',
            JArr [JObj [(''content'', JObj [(''parts'', JArr [JObj [(''text'', JStr ''not json'')]])])]])]
          ''candidates''
      = Some (JArr [JObj [(''content'', JObj [(''parts'', JArr [JObj [(''text'', JStr ''not json'')]])])]])"
    by simp
  have d2: "map_of [(''candidates'', JArr [JObj []])] ''candidates'' = Some (JArr [JObj []])"
    by simp
  have e1: "truthy (JArr [JObj [(''content'', JObj [(''parts'', JArr [JObj [(''text'', JStr ''not json'')]])])]])"
    and e2: "truthy (JArr [JObj []])"
    by simp_all
  have f1: "extract_payload demo_world
      (JArr [JObj [(''content'', JObj [(''parts'', JArr [JObj [(''text'', JStr ''not json'')]])])]])
      = Inl (JSONDecodeError ''Expecting value: line 1 column 1 (char 0)'')"
    by (simp add: extract_payload_def and_then_def loads_value_def demo_world_def)
  have f2: "extract_payload demo_world (JArr [JObj []]) = Inl (KeyError (quoted ''content''))"
    by (simp add: extract_payload_def and_then_def)
  show ?thesis
    using payload_exception_not_retried [OF a b c1 d1 e1 f1, of "''B''"]
      payload_exception_not_retried [OF a b c2 d2 e2 f2, of "''B''"]
    by simp
qed

text \<open>
  Claim C7. If the \<^verbatim>\<open>try\<close> block of a record raises an exception \<open>e\<close>, at any position of
  the batch, the loop appends the row with category "Processing Error" and justification
  \<open>str(e)\<close> and carries on: the batch returns normally, its result list contains that row
  after the earlier ones, and \<^verbatim>\<open>get_cookie_details\<close> is called for every remaining record.
\<close>

theorem record_exception_contained:
  assumes "CHUNK_SIZE_PAUSE cfg \<noteq> 0"
    and "try_body w cfg (cookie_name, domain_category) s = (Inl e, s1)"
  shows "process_loop w cfg total_cookies index ((cookie_name, domain_category) # rest)
           results_list s =
         process_loop w cfg total_cookies (index + 1) rest
           (results_list @ [\<lparr>Cookie_Name = cookie_name, Domain_Category = domain_category,
                             Recommended_Category = JStr ''Processing Error'',
                             Justification = JStr (str_exn e)\<rparr>])
           (chunk_pause cfg total_cookies index s1)
       \<and> (\<exists>later s'.
            process_loop w cfg total_cookies index ((cookie_name, domain_category) # rest)
              results_list s =
              (Inr (results_list
                    @ \<lparr>Cookie_Name = cookie_name, Domain_Category = domain_category,
                       Recommended_Category = JStr ''Processing Error'',
                       Justification = JStr (str_exn e)\<rparr> # later), s')
            \<and> client_calls s' = client_calls s @ cookie_name # map fst rest)"
proof -
  let ?err = "\<lparr>Cookie_Name = cookie_name, Domain_Category = domain_category,
               Recommended_Category = JStr ''Processing Error'',
               Justification = JStr (str_exn e)\<rparr>"
  have rec: "process_record w cfg (cookie_name, domain_category) s = ([?err], s1)"
    using assms(2) by (simp add: process_record_def)
  have step: "process_loop w cfg total_cookies index ((cookie_name, domain_category) # rest)
                results_list s =
              process_loop w cfg total_cookies (index + 1) rest (results_list @ [?err])
                (chunk_pause cfg total_cookies index s1)"
    unfolding process_loop_step [OF assms(1)] rec by simp
  from process_loop_outputs [OF assms(1), of w total_cookies "index + 1" rest
      "results_list @ [?err]" "chunk_pause cfg total_cookies index s1"]
  obtain outs s' where
    run: "process_loop w cfg total_cookies (index + 1) rest (results_list @ [?err])
            (chunk_pause cfg total_cookies index s1)
          = (Inr ((results_list @ [?err]) @ concat outs), s')"
    and calls: "client_calls s' = client_calls (chunk_pause cfg total_cookies index s1) @ map fst rest"
    by blast
  have c1: "client_calls s1 = client_calls s @ [cookie_name]"
    using process_record_client_calls [of w cfg "(cookie_name, domain_category)" s]
    unfolding rec by simp
  have "process_loop w cfg total_cookies index ((cookie_name, domain_category) # rest)
          results_list s = (Inr (results_list @ ?err # concat outs), s')
        \<and> client_calls s' = client_calls s @ cookie_name # map fst rest"
    unfolding step run using calls c1 by simp
  then show ?thesis
    using step by blast
qed


lemma demo_try_body_bad:
  "try_body demo_world demo_config (''bad'', ''B'') [] =
     (Inl (JSONDecodeError ''Expecting value: line 1 column 1 (char 0)''),
      [Sleep 1, ClientCall ''bad'', Post ''bad''])"
  by (simp add: try_body_def get_cookie_details_def demo_world_def demo_config_def
      demo_post_def demo_body_def read_response_def extract_payload_def and_then_def
      loads_value_def time_sleep_def upt_rec)

theorem record_exception_witness:
  "\<exists>later s'.
     process_loop demo_world demo_config 2 0 [(''bad'', ''B''), (''_ga'', ''Unknown'')] [] [] =
       (Inr (\<lparr>Cookie_Name = ''bad'', Domain_Category = ''B'',
              Recommended_Category = JStr ''Processing Error'',
              Justification = JStr ''Expecting value: line 1 column 1 (char 0)''\<rparr> # later), s')
     \<and> client_calls s' = [''bad'', ''_ga'']"
proof -
  have a: "CHUNK_SIZE_PAUSE demo_config \<noteq> 0"
    by (simp add: demo_config_def)
  show ?thesis
    using record_exception_contained [OF a demo_try_body_bad, of 2 0 "[(''_ga'', ''Unknown'')]" "[]",
        THEN conjunct2]
    by simp
qed

section \<open>Deduplication and the left join\<close>

lemma reconcile_record_shape:
  "reconcile_record w name D api_details = Inr appended \<Longrightarrow>
   length appended \<le> 1 \<and> (\<forall>r\<in>set appended. Cookie_Name r = name \<and> Domain_Category r = D)"
  by (cases api_details)
    (auto simp: reconcile_record_def and_then_def split_beta split: if_splits)

lemma process_record_shape:
  "length (fst (process_record w cfg (name, D) s)) \<le> 1
   \<and> (\<forall>r\<in>set (fst (process_record w cfg (name, D) s)). Cookie_Name r = name \<and> Domain_Category r = D)"
proof -
  obtain res s' where g: "get_cookie_details w name (MAX_RETRIES cfg) (time_sleep 1 s) = (res, s')"
    by (cases "get_cookie_details w name (MAX_RETRIES cfg) (time_sleep 1 s)")
  show ?thesis
    unfolding process_record_unfold g
    using reconcile_record_shape [of w name D]
    by (auto split: sum.splits)
qed

lemma names_filter_other:
  "fst ` set (filter (\<lambda>r. fst r \<noteq> n) rows) = fst ` set rows - {n}"
  by (induction rows) auto

lemma drop_duplicates_names: "fst ` set (drop_duplicates rows) = fst ` set rows"
proof (induction rows)
  case Nil
  show ?case by simp
next
  case (Cons row rows)
  have "fst ` set (drop_duplicates (row # rows))
          = insert (fst row) (fst ` set (drop_duplicates rows) - {fst row})"
    using names_filter_other [of "fst row" "drop_duplicates rows"] by simp
  also have "\<dots> = fst ` set (row # rows)"
    using Cons.IH by auto
  finally show ?case .
qed

lemma drop_duplicates_distinct: "distinct (map fst (drop_duplicates rows))"
  by (induction rows) (auto simp: distinct_map_filter)

lemma map_of_filter_other:
  "k \<noteq> n \<Longrightarrow> map_of (filter (\<lambda>r. fst r \<noteq> n) rows) k = map_of rows k"
  by (induction rows) auto

lemma map_of_drop_duplicates: "map_of (drop_duplicates rows) = map_of rows"
proof (induction rows)
  case Nil
  show ?case by simp
next
  case (Cons row rows)
  show ?case
  proof
    fix k
    show "map_of (drop_duplicates (row # rows)) k = map_of (row # rows) k"
      using Cons.IH by (cases row) (auto simp: map_of_filter_other)
  qed
qed

lemma filter_distinct_key:
  "distinct (map fst right) \<Longrightarrow>
   filter (\<lambda>r. fst r = n) right = (case map_of right n of None \<Rightarrow> [] | Some v \<Rightarrow> [(n, v)])"
proof (induction right)
  case Nil
  show ?case by simp
next
  case (Cons a right)
  then have IH: "filter (\<lambda>r. fst r = n) right =
      (case map_of right n of None \<Rightarrow> [] | Some v \<Rightarrow> [(n, v)])"
    by simp
  show ?case
  proof (cases "fst a = n")
    case True
    with Cons.prems have "n \<notin> fst ` set right" by auto
    then have "map_of right n = None" by (simp add: map_of_eq_None_iff)
    with True IH show ?thesis by (cases a) auto
  next
    case False
    with IH show ?thesis by (cases a) auto
  qed
qed

lemma merge_left_distinct:
  assumes "distinct (map fst right)"
  shows "merge_left input_df right = map (joined_row (map_of right)) input_df"
proof -
  have "\<And>row. (case row of (cookie_name, domain_category) \<Rightarrow>
        case filter (\<lambda>r. fst r = cookie_name) right of
          [] \<Rightarrow> [\<lparr>row_Cookie_Name = cookie_name, row_Domain_Category = domain_category,
                  row_Recommended_Category = None, row_Justification = None\<rparr>]
        | matches \<Rightarrow>
            map (\<lambda>(_, category, justification).
                   \<lparr>row_Cookie_Name = cookie_name, row_Domain_Category = domain_category,
                    row_Recommended_Category = Some category,
                    row_Justification = Some justification\<rparr>) matches)
      = [joined_row (map_of right) row]"
    by (auto simp: filter_distinct_key [OF assms] joined_row_def split: option.splits prod.splits)
  then show ?thesis
    unfolding merge_left_def by (induction input_df) auto
qed

section \<open>The whole analysis\<close>

lemma count_list_distinct: "distinct xs \<Longrightarrow> x \<in> set xs \<Longrightarrow> count_list xs x = 1"
  by (induction xs) auto

lemma outputs_names:
  assumes "list_all2 (\<lambda>row out. \<exists>si. out = fst (process_record w cfg row si)) records outs"
  shows "set (map Cookie_Name (concat outs)) \<subseteq> fst ` set records
       \<and> (distinct (map fst records) \<longrightarrow> distinct (map Cookie_Name (concat outs)))"
  using assms
proof (induction rule: list_all2_induct)
  case Nil
  show ?case by simp
next
  case (Cons row records out outs)
  obtain name D where row: "row = (name, D)" by (cases row)
  from Cons.hyps(1) obtain si where out: "out = fst (process_record w cfg (name, D) si)"
    unfolding row by blast
  have shape: "length out \<le> 1" "\<forall>r\<in>set out. Cookie_Name r = name"
    using process_record_shape [of w cfg name D si] out by auto
  have names: "set (map Cookie_Name out) \<subseteq> {name}"
    using shape(2) by auto
  have d: "distinct (map Cookie_Name out)"
    using shape(1) by (cases out) auto
  from Cons.IH have sub: "set (map Cookie_Name (concat outs)) \<subseteq> fst ` set records"
    and dist: "distinct (map fst records) \<Longrightarrow> distinct (map Cookie_Name (concat outs))"
    by blast+
  have split: "map Cookie_Name (concat (out # outs))
                 = map Cookie_Name out @ map Cookie_Name (concat outs)"
    by simp
  have left: "fst ` set (row # records) = insert name (fst ` set records)"
    by (simp add: row)
  have "set (map Cookie_Name (concat (out # outs))) \<subseteq> fst ` set (row # records)"
    unfolding split left set_append using names sub by blast
  moreover have "distinct (map Cookie_Name (concat (out # outs)))"
    if "distinct (map fst (row # records))"
  proof -
    from that have fresh: "name \<notin> fst ` set records" and rest: "distinct (map fst records)"
      unfolding row by auto
    have "set (map Cookie_Name out) \<inter> set (map Cookie_Name (concat outs)) = {}"
      using names sub fresh by blast
    with d dist [OF rest] show ?thesis unfolding split by simp
  qed
  ultimately show ?case by blast
qed

lemma outputs_member:
  assumes "list_all2 (\<lambda>row out. \<exists>si. out = fst (process_record w cfg row si)) records outs"
    and "row \<in> set records"
  shows "\<exists>si. set (fst (process_record w cfg row si)) \<subseteq> set (concat outs)"
  using assms
proof (induction rule: list_all2_induct)
  case Nil
  then show ?case by simp
next
  case (Cons r records out outs)
  then show ?case by auto
qed

lemma process_loop_zero_chunk:
  "CHUNK_SIZE_PAUSE cfg = 0 \<Longrightarrow> records \<noteq> [] \<Longrightarrow>
   \<exists>e s'. process_loop w cfg total_cookies index records results_list s = (Inl e, s')"
  by (cases records) (auto simp: split_beta)

lemma analysis_output:
  assumes "start_analysis w cfg input_df s = (Inr output_df, s')"
  shows "\<exists>outs. CHUNK_SIZE_PAUSE cfg \<noteq> 0
           \<and> list_all2 (\<lambda>row out. \<exists>si. out = fst (process_record w cfg row si))
                 (drop_duplicates input_df) outs
           \<and> distinct (map Cookie_Name (concat outs))
           \<and> output_df = map (joined_row (map_of (result_columns (concat outs)))) input_df
           \<and> client_calls s' = client_calls s @ map fst (drop_duplicates input_df)"
proof -
  obtain res s1 where run: "process_dataframe w cfg (drop_duplicates input_df) s = (res, s1)"
    by (cases "process_dataframe w cfg (drop_duplicates input_df) s")
  have "start_analysis w cfg input_df s =
          (and_then res (\<lambda>results_list.
             and_then (select_result_columns results_list) (\<lambda>right.
               Inr (merge_left input_df right))), s1)"
    by (simp add: start_analysis_def run)
  with assms obtain results where res: "res = Inr results" and s1: "s1 = s'"
    and nonempty: "results \<noteq> []"
    and out: "output_df = merge_left input_df (result_columns results)"
    by (auto simp: and_then_def select_result_columns_def result_columns_def
        split: sum.splits if_splits)
  have rows: "drop_duplicates input_df \<noteq> []"
  proof
    assume "drop_duplicates input_df = []"
    with run res nonempty show False by (simp add: process_dataframe_def)
  qed
  have chunk: "CHUNK_SIZE_PAUSE cfg \<noteq> 0"
  proof
    assume "CHUNK_SIZE_PAUSE cfg = 0"
    from process_loop_zero_chunk [OF this rows, of w "length (drop_duplicates input_df)" 0 "[]" s]
      run res show False
      unfolding process_dataframe_def by auto
  qed
  from process_loop_outputs [OF chunk, of w "length (drop_duplicates input_df)" 0
      "drop_duplicates input_df" "[]" s]
  obtain outs s2 where
    run2: "process_dataframe w cfg (drop_duplicates input_df) s = (Inr (concat outs), s2)"
    and each: "list_all2 (\<lambda>row out. \<exists>si. out = fst (process_record w cfg row si))
                 (drop_duplicates input_df) outs"
    and calls: "client_calls s2 = client_calls s @ map fst (drop_duplicates input_df)"
    unfolding process_dataframe_def by auto
  from run run2 res s1 have eq: "results = concat outs" "s2 = s'" by simp_all
  have d: "distinct (map Cookie_Name (concat outs))"
    using outputs_names [OF each] drop_duplicates_distinct by blast
  then have "distinct (map fst (result_columns (concat outs)))"
    by (simp add: result_columns_def comp_def)
  from merge_left_distinct [OF this] out eq
  have "output_df = map (joined_row (map_of (result_columns (concat outs)))) input_df"
    by simp
  with chunk each d calls eq show ?thesis by blast
qed

lemma left_join_keeps_rows:
  assumes "start_analysis w cfg input_df s = (Inr output_df, s')"
  shows "map (\<lambda>r. (row_Cookie_Name r, row_Domain_Category r)) output_df = input_df"
proof -
  from analysis_output [OF assms] obtain outs where
    "output_df = map (joined_row (map_of (result_columns (concat outs)))) input_df"
    by blast
  then show ?thesis by (simp add: joined_row_def comp_def)
qed

lemma count_list_names:
  "count_list (map fst rows) X = length (filter (\<lambda>row. fst row = X) rows)"
  by (induction rows) auto

lemma joined_row_fields [simp]:
  "row_Cookie_Name (joined_row lookup row) = fst row"
  "row_Domain_Category (joined_row lookup row) = snd row"
  "row_Recommended_Category (joined_row lookup row) = map_option fst (lookup (fst row))"
  "row_Justification (joined_row lookup row) = map_option snd (lookup (fst row))"
  by (simp_all add: joined_row_def)

lemma exhausted_record:
  assumes "\<forall>n. \<exists>status_code. requests_post w n cookie_name = RequestException status_code"
    and "domain_category \<noteq> ''Error''" and "domain_category \<noteq> ''Unknown''"
  shows "fst (process_record w cfg (cookie_name, domain_category) s) =
           [final_result cookie_name domain_category (domain_category @ ''/Error'')
              (''Depending on the website's use case it can be classified as ''
                 @ domain_category @ ''/Error. API call failed after ''
                 @ str_int (MAX_RETRIES cfg) @ '' attempts.'')]"
proof -
  define status where "status a =
    (case requests_post w (n_posts (time_sleep 1 s) + a) cookie_name of
       RequestException c \<Rightarrow> c | _ \<Rightarrow> None)" for a
  have "\<forall>a<nat (MAX_RETRIES cfg).
          requests_post w (n_posts (time_sleep 1 s) + a) cookie_name = RequestException (status a)"
  proof (intro allI impI)
    fix a
    from assms(1) obtain c where
      "requests_post w (n_posts (time_sleep 1 s) + a) cookie_name = RequestException c"
      by blast
    then show "requests_post w (n_posts (time_sleep 1 s) + a) cookie_name
                 = RequestException (status a)"
      by (simp add: status_def)
  qed
  note client = all_attempts_fail [OF this]
  have rec: "reconcile_record w cookie_name domain_category
               (error_placeholder cookie_name (MAX_RETRIES cfg)) =
             Inr [final_result cookie_name domain_category (domain_category @ ''/Error'')
                    (''Depending on the website's use case it can be classified as ''
                       @ domain_category @ ''/Error. API call failed after ''
                       @ str_int (MAX_RETRIES cfg) @ '' attempts.'')]"
    using assms(2,3)
    by (simp add: error_placeholder_def reconcile_record_def and_then_def reconcile_def
        format_value_def final_result_def)
  show ?thesis
    unfolding process_record_unfold client using rec by simp
qed

lemma demo_run:
  "start_analysis demo_world demo_config demo_input [] = (Inr demo_table, demo_trace)"
  by (simp add: start_analysis_def process_dataframe_def process_record_unfold
      get_cookie_details_def demo_world_def demo_config_def demo_post_def demo_body_def
      demo_payload_def read_response_def extract_payload_def loads_value_def
      reconcile_record_def reconcile_def and_then_def select_result_columns_def
      merge_left_def time_sleep_def upt_rec demo_input_def demo_table_def demo_trace_def)

text \<open>
  Whenever the analysis produces a table and the cookie name \<open>X\<close> occurs in the input
  (once or several times), \<^verbatim>\<open>get_cookie_details\<close> has been called exactly once for \<open>X\<close>,
  the table has as many rows for \<open>X\<close> as the input has, and all of them carry the same
  Recommended Category and the same Justification.
\<close>

lemma duplicate_rows_agree:
  assumes "start_analysis w cfg input_df s = (Inr output_df, s')"
    and "X \<in> fst ` set input_df"
  shows "count_list (client_calls s') X = count_list (client_calls s) X + 1
       \<and> length (filter (\<lambda>r. row_Cookie_Name r = X) output_df) = count_list (map fst input_df) X
       \<and> (\<forall>r1\<in>set output_df. \<forall>r2\<in>set output_df.
            row_Cookie_Name r1 = X \<and> row_Cookie_Name r2 = X \<longrightarrow>
            row_Recommended_Category r1 = row_Recommended_Category r2
            \<and> row_Justification r1 = row_Justification r2)"
proof -
  from analysis_output [OF assms(1)] obtain outs where
    out: "output_df = map (joined_row (map_of (result_columns (concat outs)))) input_df"
    and calls: "client_calls s' = client_calls s @ map fst (drop_duplicates input_df)"
    by blast
  have "X \<in> set (map fst (drop_duplicates input_df))"
    using assms(2) drop_duplicates_names [of input_df] by simp
  then have once: "count_list (map fst (drop_duplicates input_df)) X = 1"
    using drop_duplicates_distinct by (rule count_list_distinct [rotated])
  have a: "count_list (client_calls s') X = count_list (client_calls s) X + 1"
    unfolding calls using once by simp
  have b: "length (filter (\<lambda>r. row_Cookie_Name r = X) output_df)
             = count_list (map fst input_df) X"
    unfolding out count_list_names by (simp add: filter_map comp_def)
  have c: "\<forall>r1\<in>set output_df. \<forall>r2\<in>set output_df.
            row_Cookie_Name r1 = X \<and> row_Cookie_Name r2 = X \<longrightarrow>
            row_Recommended_Category r1 = row_Recommended_Category r2
            \<and> row_Justification r1 = row_Justification r2"
    unfolding out by auto
  from a b c show ?thesis by blast
qed

lemma demo_duplicate_rows:
  "count_list (client_calls demo_trace) ''_ga'' = 1
   \<and> length (filter (\<lambda>r. row_Cookie_Name r = ''_ga'') demo_table) = 2
   \<and> row_Recommended_Category (demo_table ! 0) = row_Recommended_Category (demo_table ! 2)
   \<and> row_Justification (demo_table ! 0) = row_Justification (demo_table ! 2)"
proof -
  have name: "''_ga'' \<in> fst ` set demo_input"
    by (simp add: demo_input_def)
  have rows: "demo_table ! 0 \<in> set demo_table" "demo_table ! 2 \<in> set demo_table"
    "row_Cookie_Name (demo_table ! 0) = ''_ga''" "row_Cookie_Name (demo_table ! 2) = ''_ga''"
    by (simp_all add: demo_table_def)
  have occurrences: "count_list (map fst demo_input) ''_ga'' = 2"
    by (simp add: demo_input_def)
  note run = duplicate_rows_agree [OF demo_run name]
  have calls: "count_list (client_calls demo_trace) ''_ga'' = 1"
    using run [THEN conjunct1] by simp
  have same: "row_Recommended_Category (demo_table ! 0) = row_Recommended_Category (demo_table ! 2)
              \<and> row_Justification (demo_table ! 0) = row_Justification (demo_table ! 2)"
    using run [THEN conjunct2, THEN conjunct2, rule_format, OF rows(1) rows(2)] rows(3) rows(4)
    by blast
  show ?thesis
    using calls same run [THEN conjunct2, THEN conjunct1] occurrences by simp
qed

text \<open>
  The call count does not depend on a table being produced: with a nonzero
  \<^verbatim>\<open>CHUNK_SIZE_PAUSE\<close>, every name of the input gets exactly one call of
  \<^verbatim>\<open>get_cookie_details\<close>.
\<close>

lemma one_call_per_name:
  assumes "CHUNK_SIZE_PAUSE cfg \<noteq> 0" and "X \<in> fst ` set input_df"
  shows "count_list (client_calls (snd (start_analysis w cfg input_df s))) X
           = count_list (client_calls s) X + 1"
proof -
  from process_loop_outputs [OF assms(1), of w "length (drop_duplicates input_df)" 0
      "drop_duplicates input_df" "[]" s]
  obtain outs s' where
    run: "process_dataframe w cfg (drop_duplicates input_df) s = (Inr (concat outs), s')"
    and calls: "client_calls s' = client_calls s @ map fst (drop_duplicates input_df)"
    unfolding process_dataframe_def by auto
  have state: "snd (start_analysis w cfg input_df s) = s'"
    by (simp add: start_analysis_def run)
  have "X \<in> set (map fst (drop_duplicates input_df))"
    using assms(2) drop_duplicates_names [of input_df] by simp
  then have "count_list (map fst (drop_duplicates input_df)) X = 1"
    using drop_duplicates_distinct by (rule count_list_distinct [rotated])
  then show ?thesis
    unfolding state calls by simp
qed

text \<open>
  Claim C5 fails on an input whose every cookie gets a response without candidates: the
  result list is empty, selecting the result columns raises, and no table is produced at
  all (the two input rows get no output rows).
\<close>

theorem no_table_when_all_dropped:
  "start_analysis demo_world demo_config [(''empty'', ''Essential''), (''empty'', ''Functional'')] [] =
     (Inl (KeyError (''\"None of [Index(['' @ quoted ''Cookie Name'' @ '', ''
                 @ quoted ''Recommended Category'' @ '', '' @ quoted ''Justification''
                 @ ''], dtype='' @ quoted ''object'' @ '')] are in the [columns]\"'')),
      [Sleep 1, ClientCall ''empty'', Post ''empty''])"
  by (simp add: start_analysis_def process_dataframe_def process_record_unfold
      get_cookie_details_def demo_world_def demo_config_def demo_post_def read_response_def
      reconcile_record_def and_then_def select_result_columns_def time_sleep_def upt_rec)

text \<open>
  Claim C9. The error placeholder goes through the reconciliation rules like any other
  result: for a cookie whose every request fails and whose domain category \<open>D\<close> is
  neither "Error" nor "Unknown", the record's row has Recommended Category \<open>D/Error\<close> and
  the Justification "Depending on the website's use case it can be classified as
  \<open>D/Error\<close>. API call failed after \<open>r\<close> attempts."; and in every table the analysis
  produces from an input whose first row of that name has domain category \<open>D\<close>, every row
  of that name carries these two fields.
\<close>

theorem error_placeholder_is_reconciled:
  assumes "\<forall>n. \<exists>status_code. requests_post w n cookie_name = RequestException status_code"
    and "domain_category \<noteq> ''Error''" and "domain_category \<noteq> ''Unknown''"
  shows "fst (process_record w cfg (cookie_name, domain_category) s) =
           [final_result cookie_name domain_category (domain_category @ ''/Error'')
              (''Depending on the website's use case it can be classified as ''
                 @ domain_category @ ''/Error. API call failed after ''
                 @ str_int (MAX_RETRIES cfg) @ '' attempts.'')]
       \<and> (\<forall>output_df s'.
            start_analysis w cfg input_df s = (Inr output_df, s')
            \<and> map_of input_df cookie_name = Some domain_category \<longrightarrow>
            (\<forall>r\<in>set output_df. row_Cookie_Name r = cookie_name \<longrightarrow>
               row_Recommended_Category r = Some (JStr (domain_category @ ''/Error''))
               \<and> row_Justification r =
                   Some (JStr (''Depending on the website's use case it can be classified as ''
                          @ domain_category @ ''/Error. API call failed after ''
                          @ str_int (MAX_RETRIES cfg) @ '' attempts.''))))"
proof -
  let ?row = "final_result cookie_name domain_category (domain_category @ ''/Error'')
              (''Depending on the website's use case it can be classified as ''
                 @ domain_category @ ''/Error. API call failed after ''
                 @ str_int (MAX_RETRIES cfg) @ '' attempts.'')"
  note single = exhausted_record [OF assms]
  have table: "\<forall>r\<in>set output_df. row_Cookie_Name r = cookie_name \<longrightarrow>
               row_Recommended_Category r = Some (Recommended_Category ?row)
               \<and> row_Justification r = Some (Justification ?row)"
    if run: "start_analysis w cfg input_df s = (Inr output_df, s')"
      and first: "map_of input_df cookie_name = Some domain_category"
    for output_df s'
  proof -
    from analysis_output [OF run] obtain outs where
      each: "list_all2 (\<lambda>row out. \<exists>si. out = fst (process_record w cfg row si))
               (drop_duplicates input_df) outs"
      and d: "distinct (map Cookie_Name (concat outs))"
      and out: "output_df = map (joined_row (map_of (result_columns (concat outs)))) input_df"
      by blast
    have "map_of (drop_duplicates input_df) cookie_name = Some domain_category"
      using first by (simp only: map_of_drop_duplicates)
    then have "(cookie_name, domain_category) \<in> set (drop_duplicates input_df)"
      by (rule map_of_SomeD)
    from outputs_member [OF each this] obtain si where
      sub: "set (fst (process_record w cfg (cookie_name, domain_category) si))
              \<subseteq> set (concat outs)"
      by blast
    have member: "?row \<in> set (concat outs)"
      using sub unfolding exhausted_record [OF assms] by simp
    have "(Cookie_Name ?row, Recommended_Category ?row, Justification ?row)
            \<in> set (result_columns (concat outs))"
      unfolding result_columns_def set_map using member by (rule imageI)
    then have "(cookie_name, Recommended_Category ?row, Justification ?row)
                 \<in> set (result_columns (concat outs))"
      by (simp only: final_result_def result.simps)
    moreover have "distinct (map fst (result_columns (concat outs)))"
      using d by (simp add: result_columns_def comp_def)
    ultimately have "map_of (result_columns (concat outs)) cookie_name
                       = Some (Recommended_Category ?row, Justification ?row)"
      by (rule map_of_is_SomeI [rotated])
    then show ?thesis
      unfolding out by simp
  qed
  show ?thesis
    using single table by (simp add: final_result_def)
qed

lemma demo_run_sid:
  "fst (start_analysis demo_world demo_config demo_input_sid []) = Inr demo_table_sid"
  by (simp add: start_analysis_def process_dataframe_def process_record_unfold
      get_cookie_details_def demo_world_def demo_config_def demo_post_def demo_body_def
      demo_payload_def read_response_def extract_payload_def loads_value_def
      reconcile_record_def reconcile_def and_then_def select_result_columns_def
      merge_left_def time_sleep_def upt_rec demo_input_sid_def demo_table_sid_def
      demo_sentence_def error_placeholder_def format_value_def str_int_def str_nat.simps)

theorem error_placeholder_is_reconciled_witness:
  "fst (process_record demo_world demo_config (''sid'', ''Essential'') []) =
     [final_result ''sid'' ''Essential'' ''Essential/Error'' demo_sentence]
   \<and> row_Recommended_Category (demo_table_sid ! 2) = Some (JStr ''Essential/Error'')
   \<and> row_Justification (demo_table_sid ! 2) = Some (JStr demo_sentence)"
proof -
  have fails: "\<forall>n. \<exists>status_code. requests_post demo_world n ''sid'' = RequestException status_code"
    by (simp add: demo_world_def demo_post_def)
  have d1: "''Essential'' \<noteq> ''Error''" and d2: "''Essential'' \<noteq> ''Unknown''"
    by simp_all
  have run: "start_analysis demo_world demo_config demo_input_sid [] =
               (Inr demo_table_sid, snd (start_analysis demo_world demo_config demo_input_sid []))"
    using demo_run_sid by (metis prod.collapse)
  have first: "map_of demo_input_sid ''sid'' = Some ''Essential''"
    by (simp add: demo_input_sid_def)
  have row: "demo_table_sid ! 2 \<in> set demo_table_sid"
    and name: "row_Cookie_Name (demo_table_sid ! 2) = ''sid''"
    by (simp_all add: demo_table_sid_def)
  have sentence: "''Depending on the website's use case it can be classified as ''
                @ ''Essential'' @ ''/Error. API call failed after ''
                @ str_int (MAX_RETRIES demo_config) @ '' attempts.'' = demo_sentence"
    by (simp add: demo_sentence_def demo_config_def str_int_def str_nat.simps)
  note inst = error_placeholder_is_reconciled [OF fails d1 d2, of demo_config "[]" demo_input_sid]
  have a: "fst (process_record demo_world demo_config (''sid'', ''Essential'') []) =
             [final_result ''sid'' ''Essential'' ''Essential/Error'' demo_sentence]"
    using inst [THEN conjunct1] unfolding sentence by simp
  have b: "row_Recommended_Category (demo_table_sid ! 2) = Some (JStr ''Essential/Error'')
           \<and> row_Justification (demo_table_sid ! 2) = Some (JStr demo_sentence)"
    using inst [THEN conjunct2, rule_format, OF conjI [OF run first] row name]
    unfolding sentence by simp
  from a b show ?thesis by blast
qed

text \<open>
  Claim C6 fails on an input in which the name occurs three times and the response has
  no candidates: the client is called once for the name, but the only unique record is
  dropped, the column selection raises and no table is produced, so none of the three
  rows comes out. This is the same missing case as in claim C5.
\<close>

theorem duplicates_get_no_rows:
  "start_analysis demo_world demo_config
     [(''empty'', ''Essential''), (''empty'', ''Functional''), (''empty'', ''Targeting'')] [] =
     (Inl (KeyError (''\"None of [Index(['' @ quoted ''Cookie Name'' @ '', ''
                 @ quoted ''Recommended Category'' @ '', '' @ quoted ''Justification''
                 @ ''], dtype='' @ quoted ''object'' @ '')] are in the [columns]\"'')),
      [Sleep 1, ClientCall ''empty'', Post ''empty''])
   \<and> count_list (client_calls [Sleep 1, ClientCall ''empty'', Post ''empty'']) ''empty'' = 1"
  by (simp add: start_analysis_def process_dataframe_def process_record_unfold
      get_cookie_details_def demo_world_def demo_config_def demo_post_def read_response_def
      reconcile_record_def and_then_def select_result_columns_def time_sleep_def upt_rec)

section \<open>The trace of the retry loop\<close>

text \<open>The loop only ever appends to the trace.\<close>

lemma attempts_extends:
  "\<exists>later. snd (attempts w name r as s) = s @ later"
proof (induction as arbitrary: s)
  case Nil
  show ?case by simp
next
  case (Cons a as)
  show ?case
  proof (cases "requests_post w (n_posts s) name")
    case (RequestException c)
    from Cons.IH [of "time_sleep (if c = Some 429 then 60 else 2 ^ a) (s @ [Post name])"]
    obtain later where
      "snd (attempts w name r as (time_sleep (if c = Some 429 then 60 else 2 ^ a) (s @ [Post name])))
         = time_sleep (if c = Some 429 then 60 else 2 ^ a) (s @ [Post name]) @ later"
      by blast
    then have "snd (attempts w name r (a # as) s)
                 = s @ ([Post name, Sleep (if c = Some 429 then 60 else 2 ^ a)] @ later)"
      using RequestException by (cases "c = Some 429") (simp_all add: time_sleep_def)
    then show ?thesis by blast
  next
    case (Raised e)
    then show ?thesis by simp
  next
    case (Response d)
    then show ?thesis by simp
  qed
qed

text \<open>
  Claim C4. Let the attempts \<open>0\<close> to \<open>k - 1\<close> of a call fail with a request exception.
  Then the trace that \<^verbatim>\<open>get_cookie_details\<close> returns continues the old one with the call
  and, for each of these attempts in turn, its request followed by one sleep: 60 seconds
  when the failure carries status 429, \<open>2 ^ a\<close> seconds for attempt \<open>a\<close> otherwise (1 second
  for the first attempt). Nothing else lies in between, so a 429 is followed directly by
  the next request and uses up an attempt number like any other failure. If these were
  all the attempts, the trace ends there; if attempt \<open>k\<close> exists and does not fail with a
  request exception, the trace ends with the request of attempt \<open>k\<close>.
\<close>

theorem retry_sleep_schedule:
  assumes "k \<le> nat retries"
    and "\<forall>a<k. requests_post w (n_posts s + a) cookie_name = RequestException (status_code a)"
  shows "(\<exists>later. snd (get_cookie_details w cookie_name retries s) =
            s @ [ClientCall cookie_name]
              @ concat (map (\<lambda>a. [Post cookie_name,
                                    Sleep (if status_code a = Some 429 then 60 else 2 ^ a)])
                         [0..<k])
              @ later)
       \<and> (k = nat retries \<longrightarrow>
            snd (get_cookie_details w cookie_name retries s) =
              s @ [ClientCall cookie_name]
                @ concat (map (\<lambda>a. [Post cookie_name,
                                      Sleep (if status_code a = Some 429 then 60 else 2 ^ a)])
                           [0..<k]))
       \<and> (k < nat retries
            \<and> (\<forall>c. requests_post w (n_posts s + k) cookie_name \<noteq> RequestException c) \<longrightarrow>
            snd (get_cookie_details w cookie_name retries s) =
              s @ [ClientCall cookie_name]
                @ concat (map (\<lambda>a. [Post cookie_name,
                                      Sleep (if status_code a = Some 429 then 60 else 2 ^ a)])
                           [0..<k])
                @ [Post cookie_name])"
proof -
  let ?P = "s @ [ClientCall cookie_name]
              @ concat (map (\<lambda>a. failed_attempt cookie_name (status_code a) a) [0..<k])"
  have same: "concat (map (\<lambda>a. [Post cookie_name,
                                  Sleep (if status_code a = Some 429 then 60 else 2 ^ a)]) [0..<k])
              = concat (map (\<lambda>a. failed_attempt cookie_name (status_code a) a) [0..<k])"
    by (simp add: failed_attempt_def)
  note loop = failing_prefix [OF assms]
  have prefix: "\<exists>later. snd (get_cookie_details w cookie_name retries s) = ?P @ later"
    unfolding loop using attempts_extends [of w cookie_name retries "[k..<nat retries]" ?P]
    by simp
  have all: "snd (get_cookie_details w cookie_name retries s) = ?P" if "k = nat retries"
    unfolding loop using that by simp
  have stop: "snd (get_cookie_details w cookie_name retries s) = ?P @ [Post cookie_name]"
    if less: "k < nat retries"
      and other: "\<forall>c. requests_post w (n_posts s + k) cookie_name \<noteq> RequestException c"
  proof (cases "requests_post w (n_posts s + k) cookie_name")
    case (RequestException c)
    with other show ?thesis by blast
  next
    case (Raised e)
    from raised_at [OF less assms(2) this] show ?thesis by simp
  next
    case (Response d)
    from response_at [OF less assms(2) this] show ?thesis by simp
  qed
  show ?thesis
    unfolding same using prefix all stop by (simp only: append_assoc) blast
qed

theorem retry_sleep_schedule_witness:
  "snd (get_cookie_details demo_world ''_ga'' 5 []) =
     [ClientCall ''_ga'', Post ''_ga'', Sleep 60, Post ''_ga'', Sleep 2, Post ''_ga'']
   \<and> snd (get_cookie_details demo_world ''sid'' 3 []) =
     [ClientCall ''sid'', Post ''sid'', Sleep 1, Post ''sid'', Sleep 2, Post ''sid'', Sleep 4]"
proof -
  have a: "(2::nat) \<le> nat 5" and b: "(3::nat) \<le> nat 3"
    by simp_all
  have c: "\<forall>a<2. requests_post demo_world (n_posts [] + a) ''_ga''
             = RequestException (if a = 0 then Some 429 else None)"
    by (auto simp: demo_world_def demo_post_def dest!: less_2_cases)
  have d: "\<forall>a<3. requests_post demo_world (n_posts [] + a) ''sid'' = RequestException (Some 503)"
    by (simp add: demo_world_def demo_post_def)
  have e: "[0..<2] = [0, 1]" "[0..<3] = [0, 1, 2]"
    by (simp_all add: upt_rec)
  have f: "(2::nat) < nat 5
           \<and> (\<forall>c. requests_post demo_world (n_posts [] + 2) ''_ga'' \<noteq> RequestException c)"
    by (simp add: demo_world_def demo_post_def)
  have g: "(3::nat) = nat 3"
    by simp
  have first: "snd (get_cookie_details demo_world ''_ga'' 5 []) =
     [ClientCall ''_ga'', Post ''_ga'', Sleep 60, Post ''_ga'', Sleep 2, Post ''_ga'']"
    using retry_sleep_schedule [OF a c, THEN conjunct2, THEN conjunct2, rule_format, OF f]
    by (simp add: e)
  have second: "snd (get_cookie_details demo_world ''sid'' 3 []) =
     [ClientCall ''sid'', Post ''sid'', Sleep 1, Post ''sid'', Sleep 2, Post ''sid'', Sleep 4]"
    using retry_sleep_schedule [OF b d, THEN conjunct2, THEN conjunct1, rule_format, OF g]
    by (simp add: e)
  from first second show ?thesis by blast
qed

end
